theory Spec2Isabelle
  imports Complex_Main
begin

section \<open>Python strings and \<open>int(v, 16)\<close>\<close>

text \<open>
  The three models of \<^verbatim>\<open>serializers.py\<close> receive strings. A Python string is a
  sequence of code points; here it is an Isabelle \<open>string\<close>, so the code points are
  those below 256 (Latin-1), read with \<open>ord\<close>. The superscript two of the withdrawal
  amount, U+00B2, is \<open>CHR 0xB2\<close>.
\<close>

definition ord :: "char \<Rightarrow> nat" where
  "ord c = of_char c"

definition startswith :: "string \<Rightarrow> string \<Rightarrow> bool" where
  "startswith s p = (take (length p) s = p)"

text \<open>
  \<open>int(v, 16)\<close> on a string, as CPython's \<^verbatim>\<open>PyLong_FromUnicodeObject\<close> does it.
  First every code point from 127 on is rewritten: a Unicode space (below 256 these are
  U+0085 and U+00A0) becomes a blank, a Unicode decimal digit its ASCII digit (there is
  none below 256), anything else a question mark that ends the text. Code points below
  127 stay as they are.
\<close>

definition Py_UNICODE_ISSPACE_high :: "char \<Rightarrow> bool" where
  "Py_UNICODE_ISSPACE_high c = (ord c \<in> set [133, 160])"

fun TransformDecimalAndSpaceToASCII :: "string \<Rightarrow> string" where
  "TransformDecimalAndSpaceToASCII [] = []"
| "TransformDecimalAndSpaceToASCII (c # cs) =
     (if ord c < 127 then c # TransformDecimalAndSpaceToASCII cs
      else if Py_UNICODE_ISSPACE_high c then CHR '' '' # TransformDecimalAndSpaceToASCII cs
      else [CHR ''?''])"

text \<open>
  \<^verbatim>\<open>PyLong_FromString\<close> then reads: ASCII white space (tab, line feed, vertical tab,
  form feed, carriage return, blank), one optional sign, for base 16 an optional
  \<open>0x\<close> or \<open>0X\<close> with one optional underscore after it, the digits, white space, and
  the end of the text. Among the digits single underscores may stand between two digits:
  not first, not last, not doubled. Every other text is a \<open>ValueError\<close>, here \<open>None\<close>.
\<close>

definition Py_ISSPACE :: "char \<Rightarrow> bool" where
  "Py_ISSPACE c = (ord c \<in> set [9, 10, 11, 12, 13, 32])"

definition PyLong_DigitValue :: "char \<Rightarrow> nat option" where
  "PyLong_DigitValue c =
     (let n = ord c in
      if 48 \<le> n \<and> n \<le> 57 then Some (n - 48)
      else if 97 \<le> n \<and> n \<le> 102 then Some (n - 87)
      else if 65 \<le> n \<and> n \<le> 70 then Some (n - 55)
      else None)"

text \<open>
  The digit scan of \<^verbatim>\<open>long_from_binary_base\<close>: \<open>prev\<close> says that the character
  before was an underscore, \<open>acc\<close> is the value read so far. It stops at the first
  character that is neither a digit of the base nor an underscore and returns the rest.
\<close>

fun scan_digits :: "bool \<Rightarrow> nat \<Rightarrow> string \<Rightarrow> (nat \<times> string) option" where
  "scan_digits prev acc [] = (if prev then None else Some (acc, []))"
| "scan_digits prev acc (c # cs) =
     (if c = CHR ''_'' then (if prev then None else scan_digits True acc cs)
      else case PyLong_DigitValue c of
          Some d \<Rightarrow> scan_digits False (16 * acc + d) cs
        | None \<Rightarrow> (if prev then None else Some (acc, c # cs)))"

definition strip_sign :: "string \<Rightarrow> bool \<times> string" where
  "strip_sign s =
     (case s of
        [] \<Rightarrow> (False, [])
      | c # r \<Rightarrow> if c = CHR ''+'' then (False, r)
                 else if c = CHR ''-'' then (True, r)
                 else (False, s))"

definition strip_prefix16 :: "string \<Rightarrow> string" where
  "strip_prefix16 s =
     (case s of
        z # x # r \<Rightarrow>
          if z = CHR ''0'' \<and> (x = CHR ''x'' \<or> x = CHR ''X'')
          then (case r of [] \<Rightarrow> r | u # r' \<Rightarrow> if u = CHR ''_'' then r' else r)
          else s
      | _ \<Rightarrow> s)"

text \<open>
  The text after the prefix may not start with an underscore and the scan must consume
  at least one character: together, its first character is a digit.
\<close>

definition PyLong_FromString :: "string \<Rightarrow> int option" where
  "PyLong_FromString s =
     (let (negative, s2) = strip_sign (dropWhile Py_ISSPACE s);
          s3 = strip_prefix16 s2
      in case s3 of
           [] \<Rightarrow> None
         | c # _ \<Rightarrow>
             if PyLong_DigitValue c = None then None
             else (case scan_digits False 0 s3 of
                     None \<Rightarrow> None
                   | Some (n, rest) \<Rightarrow>
                       if dropWhile Py_ISSPACE rest = []
                       then Some (if negative then - int n else int n)
                       else None))"

definition int16 :: "string \<Rightarrow> int option" where
  "int16 v = PyLong_FromString (TransformDecimalAndSpaceToASCII v)"

text \<open>
  \<open>str.isdigit()\<close>: the string is not empty and every character has the Unicode
  property Digit. Below 256 these are the ASCII digits and the superscripts
  U+00B2, U+00B3 and U+00B9. \<open>isdecimal_char\<close> is the smaller class Nd, the one the
  \<open>Decimal\<close> constructor's \<^verbatim>\<open>\d\<close> reads: below 256 the ASCII digits only.
\<close>

definition isdecimal_char :: "char \<Rightarrow> bool" where
  "isdecimal_char c = (48 \<le> ord c \<and> ord c \<le> 57)"

definition isdigit_char :: "char \<Rightarrow> bool" where
  "isdigit_char c = (isdecimal_char c \<or> ord c \<in> set [178, 179, 185])"

definition isdigit :: "string \<Rightarrow> bool" where
  "isdigit s = (s \<noteq> [] \<and> list_all isdigit_char s)"

section \<open>\<open>decimal.Decimal\<close> and its context\<close>

text \<open>
  A finite \<open>Decimal\<close> is the triple of \<^verbatim>\<open>_pydecimal\<close>: sign, coefficient and
  exponent. The coefficient \<^verbatim>\<open>_int\<close> is a digit string without leading zeros there;
  here it is the number, and \<open>ndigits\<close> is the length of that string.
\<close>

datatype decimal = dec_from_triple (d_sign: bool) (d_int: nat) (d_exp: int)

fun ndigits :: "nat \<Rightarrow> nat" where
  "ndigits n = (if n < 10 then 1 else Suc (ndigits (n div 10)))"

declare ndigits.simps [simp del]

definition dec_value :: "decimal \<Rightarrow> rat" where
  "dec_value d =
     (if d_sign d then - 1 else 1) *
     (if 0 \<le> d_exp d then of_nat (d_int d) * 10 ^ nat (d_exp d)
      else of_nat (d_int d) / 10 ^ nat (- d_exp d))"

text \<open>\<open>Decimal(n)\<close> for a Python integer is exact: context and precision play no part.\<close>

definition Decimal_int :: "int \<Rightarrow> decimal" where
  "Decimal_int n = dec_from_triple (n < 0) (nat \<bar>n\<bar>) 0"

text \<open>The constant \<open>Decimal("1e27")\<close>: coefficient 1, exponent 27.\<close>

definition Decimal_1e27 :: decimal where
  "Decimal_1e27 = dec_from_triple False 1 27"

text \<open>
  \<open>Decimal(s)\<close> for a string \<open>s\<close> on which \<open>isdigit()\<close> holds, the only strings
  \<open>validate_amount\<close> hands to it. Such a string has no sign, point, exponent, blank or
  underscore, so the constructor's grammar asks one thing of it: every character is a
  decimal digit (\<^verbatim>\<open>\d\<close>). Otherwise the constructor signals \<open>InvalidOperation\<close>
  (conversion syntax), which the default context traps: the exception is raised.
\<close>

datatype signal =
  Clamped | DivisionByZero | Inexact | InvalidOperation | Overflow | Rounded | Subnormal
  | Underflow

definition Decimal_digits :: "string \<Rightarrow> signal + decimal" where
  "Decimal_digits s =
     (if s \<noteq> [] \<and> list_all isdecimal_char s
      then Inr (dec_from_triple False (foldl (\<lambda>a c. 10 * a + (ord c - 48)) 0 s) 0)
      else Inl InvalidOperation)"

text \<open>
  Arithmetic reads the thread's current context and records signals in it. The context
  is state, passed in and returned. Its precision, rounding mode and exponent limits are
  fields; the traps (\<open>InvalidOperation\<close>, \<open>DivisionByZero\<close>, \<open>Overflow\<close>) and
  \<open>clamp = 0\<close> are those of \<^verbatim>\<open>DefaultContext\<close> throughout. A trapped signal raises
  its exception (\<open>Inl\<close>); the state after a raise is not modelled. A context with
  other traps, under which an untrapped \<open>InvalidOperation\<close> returns a NaN and an
  untrapped \<open>Overflow\<close> an infinity, is outside this model: every statement about a
  context below is about one with the default traps and clamp.
\<close>

datatype rounding_mode =
  ROUND_DOWN | ROUND_HALF_UP | ROUND_HALF_EVEN | ROUND_CEILING | ROUND_FLOOR | ROUND_UP
  | ROUND_HALF_DOWN | ROUND_05UP

record dec_context =
  prec :: nat
  rounding :: rounding_mode
  Emin :: int
  Emax :: int
  flags :: "signal set"

definition DefaultContext :: dec_context where
  "DefaultContext =
     \<lparr>prec = 28, rounding = ROUND_HALF_EVEN, Emin = - 999999, Emax = 999999, flags = {}\<rparr>"

definition raise_flag :: "signal \<Rightarrow> dec_context \<Rightarrow> dec_context" where
  "raise_flag s ctx = ctx\<lparr>flags := insert s (flags ctx)\<rparr>"

text \<open>
  The rounding functions of \<^verbatim>\<open>_pydecimal\<close> look at the coefficient \<open>c\<close> cut after
  its first \<open>digits\<close> digits, and answer 1 (round away from zero), 0 (the cut digits are
  zeros) or -1 (round towards zero). On numbers: \<open>kept\<close> is the part before the cut,
  \<open>cut\<close> the part after it, \<open>half\<close> a five followed by zeros of the same length.
\<close>

definition kept :: "nat \<Rightarrow> nat \<Rightarrow> nat" where
  "kept c digits = c div 10 ^ (ndigits c - digits)"

definition cut :: "nat \<Rightarrow> nat \<Rightarrow> nat" where
  "cut c digits = c mod 10 ^ (ndigits c - digits)"

definition half :: "nat \<Rightarrow> nat \<Rightarrow> nat" where
  "half c digits = 5 * 10 ^ (ndigits c - digits - 1)"

definition round_down :: "nat \<Rightarrow> nat \<Rightarrow> int" where
  "round_down c digits = (if cut c digits = 0 then 0 else - 1)"

definition round_half_up :: "nat \<Rightarrow> nat \<Rightarrow> int" where
  "round_half_up c digits =
     (if half c digits \<le> cut c digits then 1 else if cut c digits = 0 then 0 else - 1)"

definition round_half_down :: "nat \<Rightarrow> nat \<Rightarrow> int" where
  "round_half_down c digits =
     (if cut c digits = half c digits then - 1 else round_half_up c digits)"

definition round_half_even :: "nat \<Rightarrow> nat \<Rightarrow> int" where
  "round_half_even c digits =
     (if cut c digits = half c digits \<and> even (kept c digits) then - 1
      else round_half_up c digits)"

definition round_05up :: "nat \<Rightarrow> nat \<Rightarrow> int" where
  "round_05up c digits =
     (if digits \<noteq> 0 \<and> kept c digits mod 5 \<noteq> 0 then round_down c digits
      else - round_down c digits)"

fun rounding_method :: "rounding_mode \<Rightarrow> bool \<Rightarrow> nat \<Rightarrow> nat \<Rightarrow> int" where
  "rounding_method ROUND_DOWN sign c digits = round_down c digits"
| "rounding_method ROUND_UP sign c digits = - round_down c digits"
| "rounding_method ROUND_HALF_UP sign c digits = round_half_up c digits"
| "rounding_method ROUND_HALF_DOWN sign c digits = round_half_down c digits"
| "rounding_method ROUND_HALF_EVEN sign c digits = round_half_even c digits"
| "rounding_method ROUND_CEILING sign c digits =
     (if sign then round_down c digits else - round_down c digits)"
| "rounding_method ROUND_FLOOR sign c digits =
     (if sign then - round_down c digits else round_down c digits)"
| "rounding_method ROUND_05UP sign c digits = round_05up c digits"

text \<open>
  \<^verbatim>\<open>Decimal._fix\<close>: keep a result within the precision and the exponent range of the
  context. A zero only has its exponent clamped. A coefficient with more digits than
  the precision allows is cut after \<open>digits\<close> digits and rounded; a result above
  \<open>Emax\<close> signals \<open>Overflow\<close>, which is trapped.
\<close>

definition Etiny :: "dec_context \<Rightarrow> int" where
  "Etiny ctx = Emin ctx - int (prec ctx) + 1"

definition Etop :: "dec_context \<Rightarrow> int" where
  "Etop ctx = Emax ctx - int (prec ctx) + 1"

definition fix_round :: "dec_context \<Rightarrow> decimal \<Rightarrow> bool \<Rightarrow> int \<Rightarrow> signal + decimal \<times> dec_context" where
  "fix_round ctx d self_is_subnormal exp_min =
     (let digits0 = int (ndigits (d_int d)) + d_exp d - exp_min;
          c = (if digits0 < 0 then 1 else d_int d);
          digits = (if digits0 < 0 then 0 else nat digits0);
          changed = rounding_method (rounding ctx) (d_sign d) c digits;
          coeff0 = kept c digits;
          coeff1 = (if 0 < changed then coeff0 + 1 else coeff0);
          carry = (0 < changed \<and> prec ctx < ndigits coeff1);
          coeff = (if carry then coeff1 div 10 else coeff1);
          exp_min' = (if carry then exp_min + 1 else exp_min)
      in if Etop ctx < exp_min' then Inl Overflow
         else
           let ctx1 = (if changed \<noteq> 0 \<and> self_is_subnormal then raise_flag Underflow ctx else ctx);
               ctx2 = (if self_is_subnormal then raise_flag Subnormal ctx1 else ctx1);
               ctx3 = (if changed \<noteq> 0 then raise_flag Inexact ctx2 else ctx2);
               ctx4 = raise_flag Rounded ctx3;
               ctx5 = (if coeff = 0 then raise_flag Clamped ctx4 else ctx4)
           in Inr (dec_from_triple (d_sign d) coeff exp_min', ctx5))"

definition dec_fix :: "dec_context \<Rightarrow> decimal \<Rightarrow> signal + decimal \<times> dec_context" where
  "dec_fix ctx d =
     (if d_int d = 0 then
        (let new_exp = min (max (d_exp d) (Etiny ctx)) (Emax ctx)
         in if new_exp \<noteq> d_exp d
            then Inr (dec_from_triple (d_sign d) 0 new_exp, raise_flag Clamped ctx)
            else Inr (d, ctx))
      else
        let exp_min0 = int (ndigits (d_int d)) + d_exp d - int (prec ctx)
        in if Etop ctx < exp_min0 then Inl Overflow
           else
             let self_is_subnormal = (exp_min0 < Etiny ctx);
                 exp_min = (if self_is_subnormal then Etiny ctx else exp_min0)
             in if d_exp d < exp_min then fix_round ctx d self_is_subnormal exp_min
                else Inr (d, if self_is_subnormal then raise_flag Subnormal ctx else ctx))"

text \<open>
  \<^verbatim>\<open>Decimal.__truediv__\<close> on finite operands. The loop that brings an exact quotient
  as close to the ideal exponent as it can is \<open>strip_zeros\<close>. Division by zero signals
  \<open>DivisionByZero\<close>, and \<open>0 / 0\<close> signals \<open>InvalidOperation\<close>; both are trapped.
\<close>

function strip_zeros :: "nat \<Rightarrow> int \<Rightarrow> int \<Rightarrow> nat \<times> int" where
  "strip_zeros coeff e ideal_exp =
     (if e < ideal_exp \<and> coeff mod 10 = 0
      then strip_zeros (coeff div 10) (e + 1) ideal_exp
      else (coeff, e))"
  by pat_completeness auto
termination
  by (relation "measure (\<lambda>(coeff, e, ideal_exp). nat (ideal_exp - e))") auto

declare strip_zeros.simps [simp del]

definition truediv :: "dec_context \<Rightarrow> decimal \<Rightarrow> decimal \<Rightarrow> signal + decimal \<times> dec_context" where
  "truediv ctx self other =
     (let sign = (d_sign self \<noteq> d_sign other) in
      if d_int other = 0 then (if d_int self = 0 then Inl InvalidOperation else Inl DivisionByZero)
      else if d_int self = 0 then dec_fix ctx (dec_from_triple sign 0 (d_exp self - d_exp other))
      else
        let shift = int (ndigits (d_int other)) - int (ndigits (d_int self)) + int (prec ctx) + 1;
            e = d_exp self - d_exp other - shift;
            num = (if 0 \<le> shift then d_int self * 10 ^ nat shift else d_int self);
            den = (if 0 \<le> shift then d_int other else d_int other * 10 ^ nat (- shift));
            coeff = num div den;
            remainder = num mod den;
            (coeff', e') =
              (if remainder \<noteq> 0 then (if coeff mod 5 = 0 then coeff + 1 else coeff, e)
               else strip_zeros coeff e (d_exp self - d_exp other))
        in dec_fix ctx (dec_from_triple sign coeff' e'))"

section \<open>The validators of \<^verbatim>\<open>serializers.py\<close>\<close>

text \<open>
  A validator returns its value or raises. A \<open>ValueError\<close> is what pydantic turns into
  a validation error; it carries the message the validator wrote, or stands for the
  one \<open>int()\<close> writes about the literal it could not read. Every other exception here is
  one of the \<open>decimal\<close> module, named by its signal.
\<close>

datatype value_error = Message string | Invalid_literal string

datatype exn = ValueError value_error | DecimalException signal

datatype pyval = Str string | Dec decimal

text \<open>
  \<open>DataAccumulatorsSyncEvent.hex_to_decimal\<close>:
  \<^verbatim>\<open>return Decimal(int(v, 16)) / Decimal("1e27")\<close>. The division is the one operation of
  the file that reads and writes the decimal context.
\<close>

definition hex_to_decimal :: "dec_context \<Rightarrow> string \<Rightarrow> exn + pyval \<times> dec_context" where
  "hex_to_decimal ctx v =
     (case int16 v of
        None \<Rightarrow> Inl (ValueError (Invalid_literal v))
      | Some n \<Rightarrow>
          (case truediv ctx (Decimal_int n) Decimal_1e27 of
             Inl s \<Rightarrow> Inl (DecimalException s)
           | Inr (d, ctx') \<Rightarrow> Inr (Dec d, ctx')))"

text \<open>
  \<open>LiquidationEventData.validate_valid_addresses\<close> and \<open>validate_valid_numbers\<close>.
  \<open>field_name\<close> is \<^verbatim>\<open>info.field_name\<close>. The helper \<^verbatim>\<open>shared.helpers.add_leading_zeros\<close>
  is not part of the sources at hand; the validators take it as the parameter \<open>pad\<close>,
  a function from strings to strings that returns on every input.
\<close>

definition validate_valid_addresses :: "(string \<Rightarrow> string) \<Rightarrow> string \<Rightarrow> string \<Rightarrow> exn + pyval" where
  "validate_valid_addresses pad value field_name =
     (if \<not> startswith value ''0x''
      then Inl (ValueError (Message (''Invalid address provided for '' @ field_name)))
      else Inr (Str (pad value)))"

definition validate_valid_numbers :: "string \<Rightarrow> string \<Rightarrow> exn + pyval" where
  "validate_valid_numbers value field_name =
     (case int16 value of
        Some n \<Rightarrow> Inr (Dec (Decimal_int n))
      | None \<Rightarrow> Inl (ValueError (Message (field_name @ '' field is not a valid hexadecimal number''))))"

text \<open>\<open>WithdrawalEventData.validate_addresses\<close> and \<open>validate_amount\<close>.\<close>

definition validate_addresses :: "(string \<Rightarrow> string) \<Rightarrow> string \<Rightarrow> exn + pyval" where
  "validate_addresses pad value =
     (if \<not> startswith value ''0x''
      then Inl (ValueError (Message (''Invalid address provided: '' @ value)))
      else Inr (Str (pad value)))"

definition validate_amount :: "string \<Rightarrow> exn + pyval" where
  "validate_amount value =
     (if \<not> isdigit value then Inl (ValueError (Message ''Amount field is not numeric''))
      else (case Decimal_digits value of
              Inl s \<Rightarrow> Inl (DecimalException s)
            | Inr d \<Rightarrow> Inr (Dec d)))"

text \<open>
  Modelled from the spec: \<^verbatim>\<open>shared.helpers.add_leading_zeros\<close>, which the validators
  import and the sources at hand do not hold. The spec says of it that a valid input
  "is then zero-padded to the canonical fixed width", the canonical format being "a
  0x-prefixed hexadecimal string padded with leading zeros to a fixed total width".
  The width is not given; it is the parameter \<open>w\<close>.
\<close>

definition add_leading_zeros :: "nat \<Rightarrow> string \<Rightarrow> string" where
  "add_leading_zeros w value = ''0x'' @ replicate (w - length value) CHR ''0'' @ drop 2 value"

section \<open>Construction of a model by pydantic\<close>

text \<open>
  \<open>Model(**raw)\<close> walks the fields in the order the class declares them. A field
  the mapping lacks is recorded as missing. Otherwise the field's validator runs on
  the raw string: its value is stored, a \<open>ValueError\<close> is recorded as a line of the
  validation error under the field's name and the walk goes on, and any other
  exception leaves the constructor at once. After the last field the constructor
  raises one \<open>ValidationError\<close> holding every recorded line, or returns the model when
  there is none. Keys of the mapping that are no field are ignored. The fields of the
  finished model are listed in declaration order. The decimal context in force is
  threaded through and returned with the result.
\<close>

datatype line_error = Missing string | Value_error string value_error

datatype outcome =
  Model "(string \<times> pyval) list" dec_context
  | ValidationError "line_error list" dec_context
  | Raised signal

type_synonym validator = "dec_context \<Rightarrow> string \<Rightarrow> exn + pyval \<times> dec_context"

fun validate_fields ::
  "(string \<times> validator) list \<Rightarrow> (string \<rightharpoonup> string) \<Rightarrow> dec_context \<Rightarrow> line_error list \<Rightarrow>
     (string \<times> pyval) list \<Rightarrow> outcome" where
  "validate_fields [] raw ctx errors fields_values =
     (if errors = [] then Model fields_values ctx else ValidationError errors ctx)"
| "validate_fields ((name, validate) # rest) raw ctx errors fields_values =
     (case raw name of
        None \<Rightarrow> validate_fields rest raw ctx (errors @ [Missing name]) fields_values
      | Some v \<Rightarrow>
          (case validate ctx v of
             Inr (x, ctx') \<Rightarrow> validate_fields rest raw ctx' errors (fields_values @ [(name, x)])
           | Inl (ValueError e) \<Rightarrow>
               validate_fields rest raw ctx (errors @ [Value_error name e]) fields_values
           | Inl (DecimalException s) \<Rightarrow> Raised s))"

text \<open>A validator that does no decimal arithmetic leaves the context alone.\<close>

definition no_context :: "(string \<Rightarrow> exn + pyval) \<Rightarrow> validator" where
  "no_context validate ctx v = (case validate v of Inl e \<Rightarrow> Inl e | Inr x \<Rightarrow> Inr (x, ctx))"

text \<open>A field annotated \<open>str\<close> with no validator of its own keeps the string.\<close>

definition str_field :: "string \<Rightarrow> exn + pyval" where
  "str_field v = Inr (Str v)"

text \<open>
  \<open>DataAccumulatorsSyncEvent\<close>: \<open>token\<close>, \<open>lending_accumulator\<close>, \<open>debt_accumulator\<close>.
\<close>

definition DataAccumulatorsSyncEvent :: "(string \<rightharpoonup> string) \<Rightarrow> dec_context \<Rightarrow> outcome" where
  "DataAccumulatorsSyncEvent raw ctx =
     validate_fields
       [(''token'', no_context str_field),
        (''lending_accumulator'', hex_to_decimal),
        (''debt_accumulator'', hex_to_decimal)]
       raw ctx [] []"

text \<open>
  \<open>LiquidationEventData\<close>: seven fields, each with one of the two validators, which
  receives the field's name.
\<close>

definition liquidation_validators :: "(string \<Rightarrow> string) \<Rightarrow> (string \<times> (string \<Rightarrow> exn + pyval)) list" where
  "liquidation_validators pad =
     [(''liquidator'', \<lambda>v. validate_valid_addresses pad v ''liquidator''),
      (''user'', \<lambda>v. validate_valid_addresses pad v ''user''),
      (''debt_token'', \<lambda>v. validate_valid_addresses pad v ''debt_token''),
      (''debt_raw_amount'', \<lambda>v. validate_valid_numbers v ''debt_raw_amount''),
      (''debt_face_amount'', \<lambda>v. validate_valid_numbers v ''debt_face_amount''),
      (''collateral_token'', \<lambda>v. validate_valid_addresses pad v ''collateral_token''),
      (''collateral_amount'', \<lambda>v. validate_valid_numbers v ''collateral_amount'')]"

definition LiquidationEventData ::
  "(string \<Rightarrow> string) \<Rightarrow> (string \<rightharpoonup> string) \<Rightarrow> dec_context \<Rightarrow> outcome" where
  "LiquidationEventData pad raw ctx =
     validate_fields (map (\<lambda>(name, validate). (name, no_context validate)) (liquidation_validators pad))
       raw ctx [] []"

text \<open>\<open>WithdrawalEventData\<close>: \<open>user\<close>, \<open>amount\<close>, \<open>token\<close>.\<close>

definition withdrawal_validators :: "(string \<Rightarrow> string) \<Rightarrow> (string \<times> (string \<Rightarrow> exn + pyval)) list" where
  "withdrawal_validators pad =
     [(''user'', validate_addresses pad),
      (''amount'', validate_amount),
      (''token'', validate_addresses pad)]"

definition WithdrawalEventData ::
  "(string \<Rightarrow> string) \<Rightarrow> (string \<rightharpoonup> string) \<Rightarrow> dec_context \<Rightarrow> outcome" where
  "WithdrawalEventData pad raw ctx =
     validate_fields (map (\<lambda>(name, validate). (name, no_context validate)) (withdrawal_validators pad))
       raw ctx [] []"

section \<open>Reading an outcome\<close>

text \<open>
  \<open>loc\<close> is the field a line of a validation error is filed under. \<open>result\<close> is what
  the caller gets from a construction, without the context: the exception that left
  the constructor, the lines of the validation error, or the fields of the model.
  \<open>final_context\<close> is the context after a construction that returned or raised a
  validation error.
\<close>

fun loc :: "line_error \<Rightarrow> string" where
  "loc (Missing name) = name"
| "loc (Value_error name e) = name"

fun result :: "outcome \<Rightarrow> signal + line_error list + (string \<times> pyval) list" where
  "result (Model fields_values ctx) = Inr (Inr fields_values)"
| "result (ValidationError errors ctx) = Inr (Inl errors)"
| "result (Raised s) = Inl s"

fun final_context :: "outcome \<Rightarrow> dec_context option" where
  "final_context (Model fields_values ctx) = Some ctx"
| "final_context (ValidationError errors ctx) = Some ctx"
| "final_context (Raised s) = None"

text \<open>
  What one field contributes, for a validator that does no decimal arithmetic: a line
  of the validation error (\<open>field_error\<close>), a value (\<open>field_value\<close>), or an exception
  that is no \<open>ValueError\<close> (\<open>field_raises\<close>).
\<close>

definition field_error :: "(string \<rightharpoonup> string) \<Rightarrow> string \<times> (string \<Rightarrow> exn + pyval) \<Rightarrow> line_error option" where
  "field_error raw nv =
     (case raw (fst nv) of
        None \<Rightarrow> Some (Missing (fst nv))
      | Some v \<Rightarrow>
          (case snd nv v of
             Inl (ValueError e) \<Rightarrow> Some (Value_error (fst nv) e)
           | Inl (DecimalException s) \<Rightarrow> None
           | Inr x \<Rightarrow> None))"

definition field_value :: "(string \<rightharpoonup> string) \<Rightarrow> string \<times> (string \<Rightarrow> exn + pyval) \<Rightarrow> (string \<times> pyval) option" where
  "field_value raw nv =
     (case raw (fst nv) of
        None \<Rightarrow> None
      | Some v \<Rightarrow> (case snd nv v of Inl e \<Rightarrow> None | Inr x \<Rightarrow> Some (fst nv, x)))"

definition field_raises :: "(string \<rightharpoonup> string) \<Rightarrow> string \<times> (string \<Rightarrow> exn + pyval) \<Rightarrow> bool" where
  "field_raises raw nv =
     (case raw (fst nv) of
        None \<Rightarrow> False
      | Some v \<Rightarrow>
          (case snd nv v of
             Inl (ValueError e) \<Rightarrow> False
           | Inl (DecimalException s) \<Rightarrow> True
           | Inr x \<Rightarrow> False))"

text \<open>The failing fields of a liquidation mapping, in declaration order.\<close>

definition liquidation_errors :: "(string \<Rightarrow> string) \<Rightarrow> (string \<rightharpoonup> string) \<Rightarrow> line_error list" where
  "liquidation_errors pad raw = List.map_filter (field_error raw) (liquidation_validators pad)"

definition failing_fields :: "(string \<Rightarrow> string) \<Rightarrow> (string \<rightharpoonup> string) \<Rightarrow> string list" where
  "failing_fields pad raw =
     map fst (filter (\<lambda>nv. field_error raw nv \<noteq> None) (liquidation_validators pad))"

section \<open>The field walk\<close>

text \<open>
  When no validator of the list raises an exception other than a \<open>ValueError\<close>, the
  walk ends with every line it met, or with every value.
\<close>

lemma validate_fields_pure:
  "list_all (\<lambda>nv. \<not> field_raises raw nv) vs \<Longrightarrow>
   validate_fields (map (\<lambda>(name, validate). (name, no_context validate)) vs) raw ctx errs vals =
     (if errs @ List.map_filter (field_error raw) vs = []
      then Model (vals @ List.map_filter (field_value raw) vs) ctx
      else ValidationError (errs @ List.map_filter (field_error raw) vs) ctx)"
proof (induction vs arbitrary: errs vals)
  case Nil
  then show ?case by simp
next
  case (Cons nv vs)
  obtain name validate where nv: "nv = (name, validate)" by (cases nv)
  from Cons.prems have rest: "list_all (\<lambda>nv. \<not> field_raises raw nv) vs"
    and here: "\<not> field_raises raw nv" by simp_all
  show ?case
  proof (cases "raw name")
    case None
    have fe: "field_error raw nv = Some (Missing name)" and fv: "field_value raw nv = None"
      using None nv by (simp_all add: field_error_def field_value_def)
    have step: "validate_fields (map (\<lambda>(name, validate). (name, no_context validate)) (nv # vs)) raw ctx errs vals =
        validate_fields (map (\<lambda>(name, validate). (name, no_context validate)) vs) raw ctx (errs @ [Missing name]) vals"
      using None by (simp add: nv)
    show ?thesis
      unfolding step Cons.IH [OF rest]
      by (simp add: fe fv)
  next
    case (Some v)
    show ?thesis
    proof (cases "validate v")
      case (Inl e)
      then obtain m where e: "e = ValueError m"
        using here nv Some by (cases e) (simp_all add: field_raises_def)
      have fe: "field_error raw nv = Some (Value_error name m)" and fv: "field_value raw nv = None"
        using Some nv Inl e by (simp_all add: field_error_def field_value_def)
      have step: "validate_fields (map (\<lambda>(name, validate). (name, no_context validate)) (nv # vs)) raw ctx errs vals =
        validate_fields (map (\<lambda>(name, validate). (name, no_context validate)) vs) raw ctx (errs @ [Value_error name m]) vals"
        using Some Inl e by (simp add: nv no_context_def)
      show ?thesis
        unfolding step Cons.IH [OF rest]
        by (simp add: fe fv)
    next
      case (Inr x)
      have fe: "field_error raw nv = None" and fv: "field_value raw nv = Some (name, x)"
        using Some nv Inr by (simp_all add: field_error_def field_value_def)
      have step: "validate_fields (map (\<lambda>(name, validate). (name, no_context validate)) (nv # vs)) raw ctx errs vals =
        validate_fields (map (\<lambda>(name, validate). (name, no_context validate)) vs) raw ctx errs (vals @ [(name, x)])"
        using Some Inr by (simp add: nv no_context_def)
      show ?thesis
        unfolding step Cons.IH [OF rest]
        by (simp add: fe fv)
    qed
  qed
qed

lemma field_error_member:
  "nv \<in> set vs \<Longrightarrow> field_error raw nv = Some e \<Longrightarrow> e \<in> set (List.map_filter (field_error raw) vs)"
  by (auto simp: map_filter_def intro!: image_eqI [where x = nv])

lemma map_loc_errors:
  "map loc (List.map_filter (field_error raw) vs) =
   map fst (filter (\<lambda>nv. field_error raw nv \<noteq> None) vs)"
proof (induction vs)
  case Nil
  then show ?case by simp
next
  case (Cons nv vs)
  show ?case
  proof (cases "field_error raw nv")
    case None
    then show ?thesis using Cons by simp
  next
    case (Some e)
    then have "loc e = fst nv"
      by (auto simp: field_error_def split: option.splits sum.splits exn.splits)
    then show ?thesis using Cons Some by simp
  qed
qed

lemma address_field_never_raises:
  "\<not> field_raises raw (name, \<lambda>v. validate_valid_addresses pad v f)"
  by (simp add: field_raises_def validate_valid_addresses_def split: option.splits)

lemma number_field_never_raises:
  "\<not> field_raises raw (name, \<lambda>v. validate_valid_numbers v f)"
  by (simp add: field_raises_def validate_valid_numbers_def split: option.splits)

lemma liquidation_never_raises:
  "list_all (\<lambda>nv. \<not> field_raises raw nv) (liquidation_validators pad)"
  unfolding liquidation_validators_def
  by (simp add: address_field_never_raises number_field_never_raises)

lemma LiquidationEventData_eq:
  "LiquidationEventData pad raw ctx =
     (if liquidation_errors pad raw = []
      then Model (List.map_filter (field_value raw) (liquidation_validators pad)) ctx
      else ValidationError (liquidation_errors pad raw) ctx)"
  unfolding LiquidationEventData_def liquidation_errors_def
  by (simp add: validate_fields_pure [OF liquidation_never_raises])

lemma liquidation_line_reported:
  assumes "nv \<in> set (liquidation_validators pad)" and "field_error raw nv = Some e"
  shows "LiquidationEventData pad raw ctx = ValidationError (liquidation_errors pad raw) ctx
         \<and> e \<in> set (liquidation_errors pad raw)"
proof -
  have "e \<in> set (liquidation_errors pad raw)"
    unfolding liquidation_errors_def using assms by (rule field_error_member)
  moreover from this have "liquidation_errors pad raw \<noteq> []" by auto
  ultimately show ?thesis by (simp add: LiquidationEventData_eq)
qed

lemma number_validator_member:
  "name \<in> set [''debt_raw_amount'', ''debt_face_amount'', ''collateral_amount''] \<Longrightarrow>
   (name, \<lambda>v. validate_valid_numbers v name) \<in> set (liquidation_validators pad)"
  by (auto simp: liquidation_validators_def)

lemma address_validator_member:
  "name \<in> set [''liquidator'', ''user'', ''debt_token'', ''collateral_token''] \<Longrightarrow>
   (name, \<lambda>v. validate_valid_addresses pad v name) \<in> set (liquidation_validators pad)"
  by (auto simp: liquidation_validators_def)

section \<open>Liquidation amounts that do not parse\<close>

text \<open>
  Claim C6. When the string given for \<open>debt_raw_amount\<close>, \<open>debt_face_amount\<close> or
  \<open>collateral_amount\<close> is rejected by \<open>int(value, 16)\<close>, the construction of
  \<open>LiquidationEventData\<close> ends in a validation error, one of whose lines is filed under
  that field and carries the validator's own message "<field> field is not a valid
  hexadecimal number". The outcome is \<open>ValidationError\<close>, not \<open>Raised\<close>, and the line
  holds the validator's message, not the one \<open>int()\<close> wrote: the parse exception does
  not reach the caller.
\<close>

theorem C6_unparsable_amount_is_validation_error:
  assumes "name \<in> set [''debt_raw_amount'', ''debt_face_amount'', ''collateral_amount'']"
    and "raw name = Some v"
    and "int16 v = None"
  shows "\<exists>es. LiquidationEventData pad raw ctx = ValidationError es ctx
           \<and> Value_error name (Message (name @ '' field is not a valid hexadecimal number'')) \<in> set es"
proof -
  have "field_error raw (name, \<lambda>v. validate_valid_numbers v name) =
        Some (Value_error name (Message (name @ '' field is not a valid hexadecimal number'')))"
    using assms(2,3) by (simp add: field_error_def validate_valid_numbers_def)
  from liquidation_line_reported [OF number_validator_member [OF assms(1)] this]
  show ?thesis by blast
qed

text \<open>The witness: \<open>"zz"\<close> as \<open>debt_raw_amount\<close>, every other field valid.\<close>

theorem C6_unparsable_amount_witness:
  "int16 ''zz'' = None \<and>
   (\<exists>es. LiquidationEventData id
           (map_of [(''liquidator'', ''0x1''), (''user'', ''0x2''), (''debt_token'', ''0x3''),
                    (''debt_raw_amount'', ''zz''), (''debt_face_amount'', ''ff''),
                    (''collateral_token'', ''0x4''), (''collateral_amount'', ''1'')])
           DefaultContext = ValidationError es DefaultContext
         \<and> Value_error ''debt_raw_amount''
             (Message ''debt_raw_amount field is not a valid hexadecimal number'') \<in> set es)"
proof -
  have h: "int16 ''zz'' = None" by code_simp
  show ?thesis
    using h C6_unparsable_amount_is_validation_error
      [of "''debt_raw_amount''" _ "''zz''" id DefaultContext, OF _ _ h]
    by simp
qed

section \<open>Several failing fields\<close>

text \<open>
  Claim C2 says that a mapping with two or more failing fields makes the construction
  stop at the first of them and report that field alone. It does not: with
  \<open>liquidator\<close> and \<open>user\<close> both lacking the \<open>0x\<close> prefix the validation error has a
  line for each, and no validation error of a single line is the outcome.
\<close>

theorem C2_counterexample:
  "LiquidationEventData id
     (map_of [(''liquidator'', ''abc''), (''user'', ''def''), (''debt_token'', ''0x3''),
              (''debt_raw_amount'', ''ff''), (''debt_face_amount'', ''ff''),
              (''collateral_token'', ''0x4''), (''collateral_amount'', ''1'')])
     DefaultContext =
   ValidationError
     [Value_error ''liquidator'' (Message ''Invalid address provided for liquidator''),
      Value_error ''user'' (Message ''Invalid address provided for user'')]
     DefaultContext
   \<and> \<not> (\<exists>e c. LiquidationEventData id
     (map_of [(''liquidator'', ''abc''), (''user'', ''def''), (''debt_token'', ''0x3''),
              (''debt_raw_amount'', ''ff''), (''debt_face_amount'', ''ff''),
              (''collateral_token'', ''0x4''), (''collateral_amount'', ''1'')])
     DefaultContext = ValidationError [e] c)"
proof -
  have "liquidation_errors id
     (map_of [(''liquidator'', ''abc''), (''user'', ''def''), (''debt_token'', ''0x3''),
              (''debt_raw_amount'', ''ff''), (''debt_face_amount'', ''ff''),
              (''collateral_token'', ''0x4''), (''collateral_amount'', ''1'')]) =
     [Value_error ''liquidator'' (Message ''Invalid address provided for liquidator''),
      Value_error ''user'' (Message ''Invalid address provided for user'')]"
    by code_simp
  then show ?thesis by (simp add: LiquidationEventData_eq)
qed

text \<open>
  Claim C2 as amended. For every \<open>LiquidationEventData\<close> mapping in which two or more
  fields fail, the construction ends in one validation error that holds a line for
  every failing field, in declaration order: the fields the lines are filed under are
  exactly the failing fields.
\<close>

theorem C2_every_failing_field_reported:
  assumes "2 \<le> length (failing_fields pad raw)"
  shows "LiquidationEventData pad raw ctx = ValidationError (liquidation_errors pad raw) ctx
         \<and> map loc (liquidation_errors pad raw) = failing_fields pad raw"
proof -
  have names: "map loc (liquidation_errors pad raw) = failing_fields pad raw"
    unfolding liquidation_errors_def failing_fields_def by (rule map_loc_errors)
  with assms have "liquidation_errors pad raw \<noteq> []" by auto
  with names show ?thesis by (simp add: LiquidationEventData_eq)
qed

text \<open>The witness: \<open>liquidator\<close> without prefix and \<open>debt_raw_amount\<close> not a number.\<close>

theorem C2_every_failing_field_witness:
  "failing_fields id
     (map_of [(''liquidator'', ''abc''), (''user'', ''0x2''), (''debt_token'', ''0x3''),
              (''debt_raw_amount'', ''zz''), (''debt_face_amount'', ''ff''),
              (''collateral_token'', ''0x4''), (''collateral_amount'', ''1'')]) =
     [''liquidator'', ''debt_raw_amount''] \<and>
   map loc (liquidation_errors id
     (map_of [(''liquidator'', ''abc''), (''user'', ''0x2''), (''debt_token'', ''0x3''),
              (''debt_raw_amount'', ''zz''), (''debt_face_amount'', ''ff''),
              (''collateral_token'', ''0x4''), (''collateral_amount'', ''1'')])) =
     [''liquidator'', ''debt_raw_amount''] \<and>
   LiquidationEventData id
     (map_of [(''liquidator'', ''abc''), (''user'', ''0x2''), (''debt_token'', ''0x3''),
              (''debt_raw_amount'', ''zz''), (''debt_face_amount'', ''ff''),
              (''collateral_token'', ''0x4''), (''collateral_amount'', ''1'')])
     DefaultContext =
   ValidationError (liquidation_errors id
     (map_of [(''liquidator'', ''abc''), (''user'', ''0x2''), (''debt_token'', ''0x3''),
              (''debt_raw_amount'', ''zz''), (''debt_face_amount'', ''ff''),
              (''collateral_token'', ''0x4''), (''collateral_amount'', ''1'')])) DefaultContext"
proof -
  have f: "failing_fields id
     (map_of [(''liquidator'', ''abc''), (''user'', ''0x2''), (''debt_token'', ''0x3''),
              (''debt_raw_amount'', ''zz''), (''debt_face_amount'', ''ff''),
              (''collateral_token'', ''0x4''), (''collateral_amount'', ''1'')]) =
     [''liquidator'', ''debt_raw_amount'']"
    by code_simp
  then have two: "2 \<le> length (failing_fields id
     (map_of [(''liquidator'', ''abc''), (''user'', ''0x2''), (''debt_token'', ''0x3''),
              (''debt_raw_amount'', ''zz''), (''debt_face_amount'', ''ff''),
              (''collateral_token'', ''0x4''), (''collateral_amount'', ''1'')]))"
    by simp
  from C2_every_failing_field_reported [OF two, of DefaultContext] f
  show ?thesis by simp
qed

section \<open>Addresses without the prefix\<close>

lemma withdrawal_address_never_raises:
  "\<not> field_raises raw (name, validate_addresses pad)"
  by (simp add: field_raises_def validate_addresses_def split: option.splits)

lemma WithdrawalEventData_eq:
  assumes "\<not> field_raises raw (''amount'', validate_amount)"
  shows "WithdrawalEventData pad raw ctx =
     (if List.map_filter (field_error raw) (withdrawal_validators pad) = []
      then Model (List.map_filter (field_value raw) (withdrawal_validators pad)) ctx
      else ValidationError (List.map_filter (field_error raw) (withdrawal_validators pad)) ctx)"
proof -
  have "list_all (\<lambda>nv. \<not> field_raises raw nv) (withdrawal_validators pad)"
    unfolding withdrawal_validators_def
    using assms by (simp add: withdrawal_address_never_raises)
  from validate_fields_pure [OF this, of ctx "[]" "[]"]
  show ?thesis unfolding WithdrawalEventData_def by simp
qed

lemma withdrawal_validator_member:
  "name \<in> set [''user'', ''token''] \<Longrightarrow>
   (name, validate_addresses pad) \<in> set (withdrawal_validators pad)"
  by (auto simp: withdrawal_validators_def)

text \<open>
  Claim C3 as amended. When the string of an address field does not start with
  \<open>0x\<close>, the construction ends in a validation error with a line filed under that
  field. For \<open>LiquidationEventData\<close> the message of the line names the field
  ("Invalid address provided for <field>"). For \<open>WithdrawalEventData\<close> the message
  quotes the rejected string instead ("Invalid address provided: <value>"); this is
  stated for mappings whose \<open>amount\<close> does not raise an exception other than a
  \<open>ValueError\<close>.
\<close>

theorem C3_address_without_prefix_reported:
  assumes "raw name = Some v" and "\<not> startswith v ''0x''"
  shows "(name \<in> set [''liquidator'', ''user'', ''debt_token'', ''collateral_token''] \<longrightarrow>
           (\<exists>es. LiquidationEventData pad raw ctx = ValidationError es ctx \<and>
                 Value_error name (Message (''Invalid address provided for '' @ name)) \<in> set es))
       \<and> (name \<in> set [''user'', ''token''] \<and> \<not> field_raises raw (''amount'', validate_amount) \<longrightarrow>
           (\<exists>es. WithdrawalEventData pad raw ctx = ValidationError es ctx \<and>
                 Value_error name (Message (''Invalid address provided: '' @ v)) \<in> set es))"
proof (intro conjI impI)
  assume n: "name \<in> set [''liquidator'', ''user'', ''debt_token'', ''collateral_token'']"
  have "field_error raw (name, \<lambda>v. validate_valid_addresses pad v name) =
        Some (Value_error name (Message (''Invalid address provided for '' @ name)))"
    using assms by (simp add: field_error_def validate_valid_addresses_def)
  from liquidation_line_reported [OF address_validator_member [OF n] this]
  show "\<exists>es. LiquidationEventData pad raw ctx = ValidationError es ctx \<and>
          Value_error name (Message (''Invalid address provided for '' @ name)) \<in> set es"
    by blast
next
  assume a: "name \<in> set [''user'', ''token''] \<and> \<not> field_raises raw (''amount'', validate_amount)"
  have "field_error raw (name, validate_addresses pad) =
        Some (Value_error name (Message (''Invalid address provided: '' @ v)))"
    using assms by (simp add: field_error_def validate_addresses_def)
  with a have mem: "Value_error name (Message (''Invalid address provided: '' @ v))
      \<in> set (List.map_filter (field_error raw) (withdrawal_validators pad))"
    using field_error_member withdrawal_validator_member by blast
  then have "List.map_filter (field_error raw) (withdrawal_validators pad) \<noteq> []" by auto
  with mem a show "\<exists>es. WithdrawalEventData pad raw ctx = ValidationError es ctx \<and>
          Value_error name (Message (''Invalid address provided: '' @ v)) \<in> set es"
    by (simp add: WithdrawalEventData_eq)
qed

text \<open>The witness: \<open>user\<close> of a liquidation and \<open>token\<close> of a withdrawal, both \<open>"abc"\<close>.\<close>

theorem C3_address_without_prefix_witness:
  "(\<exists>es. LiquidationEventData id
           (map_of [(''liquidator'', ''0x1''), (''user'', ''abc''), (''debt_token'', ''0x3''),
                    (''debt_raw_amount'', ''ff''), (''debt_face_amount'', ''ff''),
                    (''collateral_token'', ''0x4''), (''collateral_amount'', ''1'')])
           DefaultContext = ValidationError es DefaultContext \<and>
         Value_error ''user'' (Message ''Invalid address provided for user'') \<in> set es)
   \<and> (\<exists>es. WithdrawalEventData id
           (map_of [(''user'', ''0x1''), (''amount'', ''123''), (''token'', ''abc'')])
           DefaultContext = ValidationError es DefaultContext \<and>
         Value_error ''token'' (Message ''Invalid address provided: abc'') \<in> set es)"
proof -
  have p: "\<not> startswith ''abc'' ''0x''" by (simp add: startswith_def)
  have q: "\<not> field_raises (map_of [(''user'', ''0x1''), (''amount'', ''123''), (''token'', ''abc'')])
             (''amount'', validate_amount)"
    by code_simp
  show ?thesis
    using C3_address_without_prefix_reported [of _ "''user''" "''abc''" id DefaultContext, OF _ p]
      C3_address_without_prefix_reported [of
        "map_of [(''user'', ''0x1''), (''amount'', ''123''), (''token'', ''abc'')]"
        "''token''" "''abc''" id DefaultContext, OF _ p] q
    by simp
qed

text \<open>
  Claim C3 as stated asks that the message identify the offending field. The message
  \<open>validate_addresses\<close> writes holds the rejected string and no field name: \<open>"abc"\<close>
  as \<open>user\<close> and \<open>"abc"\<close> as \<open>token\<close> give the same message, and it names neither.
\<close>

theorem C3_counterexample:
  "WithdrawalEventData id
     (map_of [(''user'', ''abc''), (''amount'', ''123''), (''token'', ''0x1'')]) DefaultContext =
   ValidationError [Value_error ''user'' (Message ''Invalid address provided: abc'')] DefaultContext
   \<and> WithdrawalEventData id
     (map_of [(''user'', ''0x1''), (''amount'', ''123''), (''token'', ''abc'')]) DefaultContext =
   ValidationError [Value_error ''token'' (Message ''Invalid address provided: abc'')] DefaultContext"
proof -
  have q1: "\<not> field_raises (map_of [(''user'', ''abc''), (''amount'', ''123''), (''token'', ''0x1'')])
             (''amount'', validate_amount)"
    by code_simp
  have q2: "\<not> field_raises (map_of [(''user'', ''0x1''), (''amount'', ''123''), (''token'', ''abc'')])
             (''amount'', validate_amount)"
    by code_simp
  have e1: "List.map_filter
      (field_error (map_of [(''user'', ''abc''), (''amount'', ''123''), (''token'', ''0x1'')]))
      (withdrawal_validators id) = [Value_error ''user'' (Message ''Invalid address provided: abc'')]"
    by code_simp
  have e2: "List.map_filter
      (field_error (map_of [(''user'', ''0x1''), (''amount'', ''123''), (''token'', ''abc'')]))
      (withdrawal_validators id) = [Value_error ''token'' (Message ''Invalid address provided: abc'')]"
    by code_simp
  show ?thesis
    by (simp only: WithdrawalEventData_eq [OF q1] WithdrawalEventData_eq [OF q2] e1 e2) simp
qed

section \<open>The withdrawal amount\<close>

lemma isdigit_superscript_two: "isdigit [CHR 0xB2]"
  by (simp add: isdigit_def isdigit_char_def isdecimal_char_def ord_def)

lemma validate_amount_superscript_two:
  "validate_amount [CHR 0xB2] = Inl (DecimalException InvalidOperation)"
  by (simp add: validate_amount_def isdigit_superscript_two Decimal_digits_def isdecimal_char_def
      ord_def)

lemma withdrawal_amount_raises:
  assumes "validate_amount v = Inl (DecimalException s)"
  shows "WithdrawalEventData pad (map_of [(''user'', u), (''amount'', v), (''token'', t)]) ctx = Raised s"
  using assms
  by (simp add: WithdrawalEventData_def withdrawal_validators_def no_context_def
      validate_addresses_def)

text \<open>
  Claim C9. There is a string that passes \<open>isdigit()\<close> and on which \<open>Decimal(value)\<close>
  raises \<open>decimal.InvalidOperation\<close>, which is no \<open>ValueError\<close>: the superscript two,
  U+00B2. Whatever the \<open>user\<close> and \<open>token\<close> of the mapping are, the construction of
  \<open>WithdrawalEventData\<close> is left by that exception and not by a validation error.
\<close>

theorem C9_digit_string_raises_raw_exception:
  "\<exists>v. isdigit v \<and> validate_amount v = Inl (DecimalException InvalidOperation) \<and>
       (\<forall>pad u t ctx.
          WithdrawalEventData pad (map_of [(''user'', u), (''amount'', v), (''token'', t)]) ctx =
            Raised InvalidOperation)"
  using isdigit_superscript_two validate_amount_superscript_two
    withdrawal_amount_raises [OF validate_amount_superscript_two]
  by blast

text \<open>
  Claim C5 at its failing input. The amounts \<open>"123"\<close>, \<open>""\<close>, \<open>"-5"\<close> and \<open>"12.3"\<close>
  behave as the claim says. The superscript two is no decimal digit, yet the
  validator does not answer it with its \<open>ValueError\<close> "Amount field is not numeric":
  \<open>isdigit()\<close> lets it pass, \<open>Decimal(value)\<close> raises \<open>decimal.InvalidOperation\<close>, and the
  construction is left by that exception.
\<close>

theorem C5_superscript_amount_not_rejected_as_non_numeric:
  "validate_amount ''123'' = Inr (Dec (dec_from_triple False 123 0))
   \<and> validate_amount '''' = Inl (ValueError (Message ''Amount field is not numeric''))
   \<and> validate_amount ''-5'' = Inl (ValueError (Message ''Amount field is not numeric''))
   \<and> validate_amount ''12.3'' = Inl (ValueError (Message ''Amount field is not numeric''))
   \<and> \<not> isdecimal_char (CHR 0xB2)
   \<and> validate_amount [CHR 0xB2] \<noteq> Inl (ValueError (Message ''Amount field is not numeric''))
   \<and> WithdrawalEventData id
         (map_of [(''user'', ''0x1''), (''amount'', [CHR 0xB2]), (''token'', ''0x2'')])
         DefaultContext = Raised InvalidOperation"
proof -
  have "validate_amount ''123'' = Inr (Dec (dec_from_triple False 123 0))" by code_simp
  moreover have "validate_amount '''' = Inl (ValueError (Message ''Amount field is not numeric''))"
    by code_simp
  moreover have "validate_amount ''-5'' = Inl (ValueError (Message ''Amount field is not numeric''))"
    by code_simp
  moreover have "validate_amount ''12.3'' = Inl (ValueError (Message ''Amount field is not numeric''))"
    by code_simp
  moreover have "\<not> isdecimal_char (CHR 0xB2)" by (simp add: isdecimal_char_def ord_def)
  moreover have "WithdrawalEventData id
         (map_of [(''user'', ''0x1''), (''amount'', [CHR 0xB2]), (''token'', ''0x2'')])
         DefaultContext = Raised InvalidOperation"
    by (rule withdrawal_amount_raises [OF validate_amount_superscript_two])
  ultimately show ?thesis
    by (simp add: validate_amount_superscript_two)
qed

section \<open>Canonical addresses\<close>

lemma startswith_0x_length: "startswith a ''0x'' \<Longrightarrow> 2 \<le> length a"
  by (cases a; cases "tl a") (auto simp: startswith_def)

lemma add_leading_zeros_startswith: "startswith (add_leading_zeros w a) ''0x''"
  by (simp add: add_leading_zeros_def startswith_def)

lemma add_leading_zeros_idem:
  assumes "startswith a ''0x''"
  shows "add_leading_zeros w (add_leading_zeros w a) = add_leading_zeros w a"
proof -
  from startswith_0x_length [OF assms] have "w \<le> length (add_leading_zeros w a)"
    by (simp add: add_leading_zeros_def)
  then show ?thesis by (simp add: add_leading_zeros_def)
qed

text \<open>
  Claim C7. For an address \<open>a\<close> that starts with \<open>0x\<close>, the canonicalisation step (the
  prefix check, then the padding) returns a string on which the same step returns that
  string again. This holds for the step of \<open>WithdrawalEventData\<close> and for the step of
  \<open>LiquidationEventData\<close>, for every width \<open>w\<close> of the padding.
\<close>

theorem C7_canonicalisation_idempotent:
  assumes "startswith a ''0x''"
  shows "\<exists>b. validate_addresses (add_leading_zeros w) a = Inr (Str b)
           \<and> validate_addresses (add_leading_zeros w) b = Inr (Str b)
           \<and> validate_valid_addresses (add_leading_zeros w) a name = Inr (Str b)
           \<and> validate_valid_addresses (add_leading_zeros w) b name = Inr (Str b)"
  using assms
  by (simp add: validate_addresses_def validate_valid_addresses_def add_leading_zeros_startswith
      add_leading_zeros_idem)

text \<open>The witness: \<open>0xabc\<close> padded to a width of ten.\<close>

theorem C7_canonicalisation_witness:
  "validate_addresses (add_leading_zeros 10) ''0xabc'' = Inr (Str ''0x00000abc'')
   \<and> validate_addresses (add_leading_zeros 10) ''0x00000abc'' = Inr (Str ''0x00000abc'')
   \<and> validate_valid_addresses (add_leading_zeros 10) ''0xabc'' ''user'' = Inr (Str ''0x00000abc'')
   \<and> validate_valid_addresses (add_leading_zeros 10) ''0x00000abc'' ''user'' = Inr (Str ''0x00000abc'')"
proof -
  have p: "startswith ''0xabc'' ''0x''" by (simp add: startswith_def)
  have v: "validate_addresses (add_leading_zeros 10) ''0xabc'' = Inr (Str ''0x00000abc'')"
    by code_simp
  from C7_canonicalisation_idempotent [OF p, of 10 "''user''"] v
  show ?thesis by auto
qed

section \<open>Liquidation amounts that parse\<close>

lemma set_TransformDecimalAndSpaceToASCII:
  "set (TransformDecimalAndSpaceToASCII v) \<subseteq> set v \<union> {CHR '' '', CHR ''?''}"
  by (induction v) auto

lemma PyLong_FromString_negative:
  assumes "PyLong_FromString s = Some n" and "n < 0"
  shows "CHR ''-'' \<in> set s"
proof -
  obtain negative s2 where ss: "strip_sign (dropWhile Py_ISSPACE s) = (negative, s2)"
    by (cases "strip_sign (dropWhile Py_ISSPACE s)")
  have "negative"
  proof (rule ccontr)
    assume "\<not> negative"
    with assms(1) ss have "0 \<le> n"
      by (auto simp: PyLong_FromString_def Let_def split: list.splits if_splits option.splits)
    with assms(2) show False by simp
  qed
  with ss obtain r where "dropWhile Py_ISSPACE s = CHR ''-'' # r"
    by (auto simp: strip_sign_def split: list.splits if_splits)
  then have "CHR ''-'' \<in> set (dropWhile Py_ISSPACE s)" by simp
  then show ?thesis by (rule set_dropWhileD)
qed

lemma int16_negative:
  assumes "int16 v = Some n" and "n < 0"
  shows "CHR ''-'' \<in> set v"
proof -
  from assms have "CHR ''-'' \<in> set (TransformDecimalAndSpaceToASCII v)"
    unfolding int16_def by (rule PyLong_FromString_negative)
  with set_TransformDecimalAndSpaceToASCII [of v] show ?thesis by auto
qed

lemma scan_digits_split:
  "scan_digits p acc s = Some (k, rest) \<Longrightarrow>
   \<exists>pre. s = pre @ rest \<and> list_all (\<lambda>c. c = CHR ''_'' \<or> PyLong_DigitValue c \<noteq> None) pre"
proof (induction s arbitrary: p acc)
  case Nil
  then show ?case by (simp split: if_splits)
next
  case (Cons c cs)
  show ?case
  proof (cases "c = CHR ''_''")
    case True
    with Cons.prems have "scan_digits True acc cs = Some (k, rest)" by (simp split: if_splits)
    from Cons.IH [OF this] obtain pre where "cs = pre @ rest"
      and "list_all (\<lambda>c. c = CHR ''_'' \<or> PyLong_DigitValue c \<noteq> None) pre" by blast
    with True have "c # cs = (c # pre) @ rest
      \<and> list_all (\<lambda>c. c = CHR ''_'' \<or> PyLong_DigitValue c \<noteq> None) (c # pre)" by simp
    then show ?thesis by blast
  next
    case False
    show ?thesis
    proof (cases "PyLong_DigitValue c")
      case None
      with False Cons.prems have "rest = c # cs" by (simp split: if_splits)
      then have "c # cs = [] @ rest
        \<and> list_all (\<lambda>c. c = CHR ''_'' \<or> PyLong_DigitValue c \<noteq> None) []" by simp
      then show ?thesis by blast
    next
      case (Some d)
      with False Cons.prems have "scan_digits False (16 * acc + d) cs = Some (k, rest)" by simp
      from Cons.IH [OF this] obtain pre where "cs = pre @ rest"
        and "list_all (\<lambda>c. c = CHR ''_'' \<or> PyLong_DigitValue c \<noteq> None) pre" by blast
      with Some have "c # cs = (c # pre) @ rest
        \<and> list_all (\<lambda>c. c = CHR ''_'' \<or> PyLong_DigitValue c \<noteq> None) (c # pre)" by simp
      then show ?thesis by blast
    qed
  qed
qed

lemma in_dropWhile: "x \<in> set xs \<Longrightarrow> \<not> P x \<Longrightarrow> x \<in> set (dropWhile P xs)"
  by (induction xs) auto

lemma in_strip_prefix16:
  assumes "c \<in> set s" and "PyLong_DigitValue c = None" and "c \<noteq> CHR ''x''" and "c \<noteq> CHR ''X''"
    and "c \<noteq> CHR ''_''"
  shows "c \<in> set (strip_prefix16 s)"
proof -
  have z: "c \<noteq> CHR ''0''"
    using assms(2) by (auto simp: PyLong_DigitValue_def ord_def)
  show ?thesis
    using assms(1,3,4,5) z
    by (auto simp: strip_prefix16_def split: list.splits)
qed

lemma digits_reject_foreign:
  assumes ok: "(case s3 of [] \<Rightarrow> None
         | c # _ \<Rightarrow>
             if PyLong_DigitValue c = None then None
             else (case scan_digits False 0 s3 of
                     None \<Rightarrow> None
                   | Some (n, rest) \<Rightarrow>
                       if dropWhile Py_ISSPACE rest = []
                       then Some (f n)
                       else None)) = Some m"
    and c: "c \<in> set s3" "\<not> Py_ISSPACE c" "c \<noteq> CHR ''_''" "PyLong_DigitValue c = None"
  shows False
proof -
  obtain c0 cs where s3c: "s3 = c0 # cs"
    using ok by (cases s3) simp_all
  have dv: "PyLong_DigitValue c0 \<noteq> None"
    using ok unfolding s3c by (simp split: if_splits)
  from ok dv have inner: "(case scan_digits False 0 s3 of
                     None \<Rightarrow> None
                   | Some (n, rest) \<Rightarrow>
                       if dropWhile Py_ISSPACE rest = [] then Some (f n) else None) = Some m"
    unfolding s3c by (simp del: scan_digits.simps)
  then obtain p where p: "scan_digits False 0 s3 = Some p"
    by (cases "scan_digits False 0 s3") simp_all
  obtain k rest where kr: "p = (k, rest)" by (cases p)
  have sc: "scan_digits False 0 s3 = Some (k, rest)" using p kr by simp
  have ws: "dropWhile Py_ISSPACE rest = []"
    using inner unfolding sc by (simp split: if_splits)
  from scan_digits_split [OF sc] obtain pre where s3: "s3 = pre @ rest"
    and pre: "list_all (\<lambda>c. c = CHR ''_'' \<or> PyLong_DigitValue c \<noteq> None) pre" by blast
  from ws have sp: "\<forall>x \<in> set rest. Py_ISSPACE x" by (simp add: dropWhile_eq_Nil_conv)
  from c(1) have "c \<in> set pre \<or> c \<in> set rest" unfolding s3 by simp
  then show False
  proof
    assume "c \<in> set pre"
    with pre have "c = CHR ''_'' \<or> PyLong_DigitValue c \<noteq> None"
      unfolding list_all_iff by blast
    with c(3,4) show False by blast
  next
    assume "c \<in> set rest"
    with sp have "Py_ISSPACE c" by blast
    with c(2) show False by blast
  qed
qed

lemma PyLong_FromString_foreign:
  assumes ok: "PyLong_FromString s = Some n"
    and c: "c \<in> set s" "\<not> Py_ISSPACE c" "c \<noteq> CHR ''_''" "PyLong_DigitValue c = None"
      "c \<noteq> CHR ''x''" "c \<noteq> CHR ''X''" "c \<noteq> CHR ''+''"
  shows "c = CHR ''-'' \<and> n \<le> 0"
proof -
  obtain negative s2 where ss: "strip_sign (dropWhile Py_ISSPACE s) = (negative, s2)"
    by (cases "strip_sign (dropWhile Py_ISSPACE s)")
  from c(1,2) have in1: "c \<in> set (dropWhile Py_ISSPACE s)" by (rule in_dropWhile)
  from ok ss have body: "(case strip_prefix16 s2 of [] \<Rightarrow> None
         | c # _ \<Rightarrow>
             if PyLong_DigitValue c = None then None
             else (case scan_digits False 0 (strip_prefix16 s2) of
                     None \<Rightarrow> None
                   | Some (n, rest) \<Rightarrow>
                       if dropWhile Py_ISSPACE rest = []
                       then Some (if negative then - int n else int n)
                       else None)) = Some n"
    by (simp add: PyLong_FromString_def Let_def)
  have not_in_s2: "c \<notin> set s2"
  proof
    assume "c \<in> set s2"
    then have "c \<in> set (strip_prefix16 s2)" using c(4,5,6,3) by (rule in_strip_prefix16)
    from digits_reject_foreign [OF body this c(2,3,4)] show False .
  qed
  from in1 obtain d r where dr: "dropWhile Py_ISSPACE s = d # r"
    by (cases "dropWhile Py_ISSPACE s") auto
  have "c = CHR ''-'' \<and> negative"
  proof (cases "d = CHR ''+''")
    case True
    with ss dr have "s2 = r" by (simp add: strip_sign_def)
    with in1 dr True c(7) not_in_s2 show ?thesis by auto
  next
    case False
    show ?thesis
    proof (cases "d = CHR ''-''")
      case True
      with ss dr have "s2 = r" and "negative" by (simp_all add: strip_sign_def)
      with in1 dr True not_in_s2 show ?thesis by auto
    next
      case nm: False
      with False ss dr have "s2 = d # r" by (simp add: strip_sign_def)
      with in1 dr not_in_s2 show ?thesis by auto
    qed
  qed
  moreover from body have "negative \<longrightarrow> n \<le> 0"
    by (auto split: list.splits if_splits option.splits)
  ultimately show ?thesis by simp
qed

lemma Transform_keeps_ascii:
  "c \<in> set v \<Longrightarrow> ord c < 127 \<Longrightarrow>
   c \<in> set (TransformDecimalAndSpaceToASCII v) \<or> CHR ''?'' \<in> set (TransformDecimalAndSpaceToASCII v)"
  by (induction v) auto

lemma int16_minus_sign:
  assumes "int16 v = Some n" and "CHR ''-'' \<in> set v"
  shows "n \<le> 0"
proof -
  from assms(1) have ok: "PyLong_FromString (TransformDecimalAndSpaceToASCII v) = Some n"
    by (simp add: int16_def)
  have "ord CHR ''-'' < 127" by (simp add: ord_def)
  from Transform_keeps_ascii [OF assms(2) this]
  show ?thesis
  proof
    assume "CHR ''-'' \<in> set (TransformDecimalAndSpaceToASCII v)"
    from PyLong_FromString_foreign [OF ok this] show ?thesis
      by (simp add: Py_ISSPACE_def PyLong_DigitValue_def ord_def)
  next
    assume "CHR ''?'' \<in> set (TransformDecimalAndSpaceToASCII v)"
    from PyLong_FromString_foreign [OF ok this] show ?thesis
      by (simp add: Py_ISSPACE_def PyLong_DigitValue_def ord_def)
  qed
qed

lemma int16_negative_iff:
  assumes "int16 v = Some n"
  shows "n < 0 \<longleftrightarrow> CHR ''-'' \<in> set v \<and> n \<noteq> 0"
  using int16_negative [OF assms] int16_minus_sign [OF assms] by auto

lemma dec_value_Decimal_int: "dec_value (Decimal_int n) = of_int n"
  by (simp add: dec_value_def Decimal_int_def)

lemmas int16_eval = int16_def PyLong_FromString_def strip_sign_def strip_prefix16_def Py_ISSPACE_def
  PyLong_DigitValue_def ord_def Py_UNICODE_ISSPACE_high_def

text \<open>
  Claim C4 says the value of an accepted amount is never negative. \<open>int(value, 16)\<close>
  accepts a sign: \<open>"-ff"\<close> is accepted and gives the decimal \<open>-255\<close>.
\<close>

theorem C4_counterexample:
  "validate_valid_numbers ''-ff'' ''debt_raw_amount'' = Inr (Dec (dec_from_triple True 255 0))
   \<and> dec_value (dec_from_triple True 255 0) = - 255
   \<and> dec_value (dec_from_triple True 255 0) < 0"
  by (simp add: validate_valid_numbers_def int16_eval Decimal_int_def dec_value_def)

text \<open>
  Claim C4 as amended. For every string \<open>h\<close> accepted as a \<open>LiquidationEventData\<close>
  amount, the resulting value is an integer-valued decimal (exponent zero) equal to
  \<open>int(h, 16)\<close>; it is negative exactly when \<open>h\<close> holds a minus sign and the
  integer is not zero, so it is not negative when \<open>h\<close> holds no minus sign.
\<close>

theorem C4_amount_is_integer_decimal:
  assumes "validate_valid_numbers h name = Inr x"
  shows "\<exists>n d. int16 h = Some n \<and> x = Dec d \<and> d_exp d = 0 \<and> dec_value d = of_int n
           \<and> (dec_value d < 0 \<longleftrightarrow> CHR ''-'' \<in> set h \<and> n \<noteq> 0)"
proof -
  from assms obtain n where n: "int16 h = Some n" and x: "x = Dec (Decimal_int n)"
    by (auto simp: validate_valid_numbers_def split: option.splits)
  have "dec_value (Decimal_int n) < 0 \<longleftrightarrow> CHR ''-'' \<in> set h \<and> n \<noteq> 0"
    using int16_negative_iff [OF n] by (simp add: dec_value_Decimal_int)
  moreover have "d_exp (Decimal_int n) = 0" by (simp add: Decimal_int_def)
  moreover have "dec_value (Decimal_int n) = of_int n" by (rule dec_value_Decimal_int)
  ultimately show ?thesis using n x by blast
qed

text \<open>The witness: \<open>"ff"\<close> gives the decimal 255.\<close>

theorem C4_amount_witness:
  "validate_valid_numbers ''ff'' ''collateral_amount'' = Inr (Dec (dec_from_triple False 255 0))
   \<and> (\<exists>n d. int16 ''ff'' = Some n \<and> dec_from_triple False 255 0 = d \<and> d_exp d = 0
          \<and> dec_value d = of_int n \<and> 0 \<le> dec_value d)"
proof -
  have v: "validate_valid_numbers ''ff'' ''collateral_amount'' = Inr (Dec (dec_from_triple False 255 0))"
    by (simp add: validate_valid_numbers_def int16_eval Decimal_int_def)
  from C4_amount_is_integer_decimal [OF v] v show ?thesis by auto
qed

text \<open>
  Claim C10 says that the field is negative when the string carries a minus sign.
  \<open>"-0"\<close> carries one and is accepted; the field is the decimal zero.
\<close>

theorem C10_counterexample:
  "CHR ''-'' \<in> set ''-0''
   \<and> int16 ''-0'' = Some 0
   \<and> validate_valid_numbers ''-0'' ''debt_raw_amount'' = Inr (Dec (dec_from_triple False 0 0))
   \<and> \<not> dec_value (dec_from_triple False 0 0) < 0"
  by (simp add: validate_valid_numbers_def int16_eval Decimal_int_def dec_value_def)

text \<open>
  Claim C10 as amended. The amount parser accepts every string that \<open>int(value, 16)\<close>
  accepts, among them strings with white space around them, a sign, a \<open>0x\<close> prefix or
  underscores between digits: when the three amounts are such strings (and the four
  addresses start with \<open>0x\<close>) the construction succeeds and each amount field is
  \<open>Decimal(int(value, 16))\<close>. The field is negative exactly when the string carries a
  minus sign and \<open>int(value, 16)\<close> is not zero.
\<close>

theorem C10_int_literals_accepted:
  assumes "raw ''liquidator'' = Some a1" and "startswith a1 ''0x''"
    and "raw ''user'' = Some a2" and "startswith a2 ''0x''"
    and "raw ''debt_token'' = Some a3" and "startswith a3 ''0x''"
    and "raw ''collateral_token'' = Some a4" and "startswith a4 ''0x''"
    and "raw ''debt_raw_amount'' = Some v1" and "int16 v1 = Some n1"
    and "raw ''debt_face_amount'' = Some v2" and "int16 v2 = Some n2"
    and "raw ''collateral_amount'' = Some v3" and "int16 v3 = Some n3"
  shows "LiquidationEventData pad raw ctx =
           Model [(''liquidator'', Str (pad a1)), (''user'', Str (pad a2)),
                  (''debt_token'', Str (pad a3)),
                  (''debt_raw_amount'', Dec (Decimal_int n1)),
                  (''debt_face_amount'', Dec (Decimal_int n2)),
                  (''collateral_token'', Str (pad a4)),
                  (''collateral_amount'', Dec (Decimal_int n3))] ctx
         \<and> dec_value (Decimal_int n1) = of_int n1
         \<and> dec_value (Decimal_int n2) = of_int n2
         \<and> dec_value (Decimal_int n3) = of_int n3
         \<and> (n1 < 0 \<longleftrightarrow> CHR ''-'' \<in> set v1 \<and> n1 \<noteq> 0)
         \<and> (n2 < 0 \<longleftrightarrow> CHR ''-'' \<in> set v2 \<and> n2 \<noteq> 0)
         \<and> (n3 < 0 \<longleftrightarrow> CHR ''-'' \<in> set v3 \<and> n3 \<noteq> 0)"
proof -
  have e: "liquidation_errors pad raw = []"
    using assms
    by (simp add: liquidation_errors_def liquidation_validators_def field_error_def
        validate_valid_addresses_def validate_valid_numbers_def)
  have v: "List.map_filter (field_value raw) (liquidation_validators pad) =
           [(''liquidator'', Str (pad a1)), (''user'', Str (pad a2)),
            (''debt_token'', Str (pad a3)),
            (''debt_raw_amount'', Dec (Decimal_int n1)),
            (''debt_face_amount'', Dec (Decimal_int n2)),
            (''collateral_token'', Str (pad a4)),
            (''collateral_amount'', Dec (Decimal_int n3))]"
    using assms
    by (simp add: liquidation_validators_def field_value_def
        validate_valid_addresses_def validate_valid_numbers_def)
  show ?thesis
    using int16_negative_iff [OF assms(10)] int16_negative_iff [OF assms(12)]
      int16_negative_iff [OF assms(14)]
    by (simp add: LiquidationEventData_eq e v dec_value_Decimal_int)
qed

text \<open>
  The witness: \<open>" 0x1f "\<close> (white space and prefix), \<open>"-ff"\<close> (sign) and \<open>"1_0"\<close>
  (underscore) as the three amounts give 31, -255 and 16.
\<close>

theorem C10_int_literals_witness:
  "int16 '' 0x1f '' = Some 31 \<and> int16 ''-ff'' = Some (- 255) \<and> int16 ''1_0'' = Some 16
   \<and> LiquidationEventData id
       (map_of [(''liquidator'', ''0x1''), (''user'', ''0x2''), (''debt_token'', ''0x3''),
                (''debt_raw_amount'', '' 0x1f ''), (''debt_face_amount'', ''-ff''),
                (''collateral_token'', ''0x4''), (''collateral_amount'', ''1_0'')])
       DefaultContext =
     Model [(''liquidator'', Str ''0x1''), (''user'', Str ''0x2''), (''debt_token'', Str ''0x3''),
            (''debt_raw_amount'', Dec (dec_from_triple False 31 0)),
            (''debt_face_amount'', Dec (dec_from_triple True 255 0)),
            (''collateral_token'', Str ''0x4''),
            (''collateral_amount'', Dec (dec_from_triple False 16 0))] DefaultContext
   \<and> dec_value (dec_from_triple True 255 0) = - 255"
proof -
  have n1: "int16 '' 0x1f '' = Some 31" by (simp add: int16_eval)
  have n2: "int16 ''-ff'' = Some (- 255)" by (simp add: int16_eval)
  have n3: "int16 ''1_0'' = Some 16" by (simp add: int16_eval)
  have p: "startswith ''0x1'' ''0x''" "startswith ''0x2'' ''0x''" "startswith ''0x3'' ''0x''"
    "startswith ''0x4'' ''0x''"
    by (simp_all add: startswith_def)
  from C10_int_literals_accepted [of
      "map_of [(''liquidator'', ''0x1''), (''user'', ''0x2''), (''debt_token'', ''0x3''),
                (''debt_raw_amount'', '' 0x1f ''), (''debt_face_amount'', ''-ff''),
                (''collateral_token'', ''0x4''), (''collateral_amount'', ''1_0'')]"
      "''0x1''" "''0x2''" "''0x3''" "''0x4''" "'' 0x1f ''" 31 "''-ff''" "- 255" "''1_0''" 16
      id DefaultContext, OF _ p(1) _ p(2) _ p(3) _ p(4) _ n1 _ n2 _ n3]
  show ?thesis
    using n1 n2 n3 by (simp add: Decimal_int_def)
qed

section \<open>Division within the precision\<close>

lemma ndigits_pos: "0 < ndigits n"
  by (subst ndigits.simps) simp

lemma ndigits_le: "n < 10 ^ k \<Longrightarrow> 0 < k \<Longrightarrow> ndigits n \<le> k"
proof (induction k arbitrary: n)
  case 0
  then show ?case by simp
next
  case (Suc k)
  show ?case
  proof (cases "n < 10")
    case True
    then show ?thesis by (subst ndigits.simps) simp
  next
    case False
    with Suc.prems have k: "0 < k" by (cases k) auto
    from Suc.prems have "n div 10 < 10 ^ k" by (simp add: less_mult_imp_div_less mult.commute)
    from Suc.IH [OF this k] False show ?thesis by (subst ndigits.simps) simp
  qed
qed

lemma strip_zeros_pow: "strip_zeros (c * 10 ^ k) (i - int k) i = (c, i)"
proof (induction k)
  case 0
  then show ?case by (subst strip_zeros.simps) simp
next
  case (Suc k)
  have "strip_zeros (c * 10 ^ Suc k) (i - int (Suc k)) i =
        strip_zeros (c * 10 ^ Suc k div 10) (i - int (Suc k) + 1) i"
    by (subst strip_zeros.simps) simp
  also have "c * 10 ^ Suc k div 10 = c * 10 ^ k" by simp
  also have "i - int (Suc k) + 1 = i - int k" by simp
  finally show ?case using Suc by simp
qed

lemma dec_fix_unchanged:
  assumes "prec ctx = 28" and "Emin ctx = - 999999" and "Emax ctx = 999999" and "c < 10 ^ 28"
  shows "dec_fix ctx (dec_from_triple s c (- 27)) = Inr (dec_from_triple s c (- 27), ctx)"
proof (cases "c = 0")
  case True
  then show ?thesis using assms by (simp add: dec_fix_def Etiny_def)
next
  case False
  have "ndigits c \<le> 28" using assms(4) by (rule ndigits_le) simp
  moreover have "0 < ndigits c" by (rule ndigits_pos)
  ultimately show ?thesis
    using False assms(1-3) by (simp add: dec_fix_def Etiny_def Etop_def)
qed

lemma truediv_exact:
  assumes "prec ctx = 28" and "Emin ctx = - 999999" and "Emax ctx = 999999" and "c < 10 ^ 28"
  shows "truediv ctx (dec_from_triple s c 0) Decimal_1e27 = Inr (dec_from_triple s c (- 27), ctx)"
proof (cases "c = 0")
  case True
  then show ?thesis
    using dec_fix_unchanged [OF assms(1-3), of 0 s]
    by (simp add: truediv_def Decimal_1e27_def)
next
  case False
  have L: "ndigits c \<le> 28" using assms(4) by (rule ndigits_le) simp
  have one: "ndigits (Suc 0) = 1" by (subst ndigits.simps) simp
  define k where "k = 30 - ndigits c"
  have shift: "int (ndigits (Suc 0)) - int (ndigits c) + int (prec ctx) + 1 = int k"
    using L assms(1) one by (simp add: k_def)
  have e: "(0::int) - 27 - int k = - 27 - int k" by simp
  have "truediv ctx (dec_from_triple s c 0) Decimal_1e27 =
        dec_fix ctx (dec_from_triple s c (- 27))"
    using False strip_zeros_pow [of c k "- 27"]
    by (simp add: truediv_def Decimal_1e27_def shift Let_def)
  then show ?thesis by (simp add: dec_fix_unchanged [OF assms])
qed

lemma dec_value_scaled:
  "dec_value (dec_from_triple (n < 0) (nat \<bar>n\<bar>) (- 27)) = of_int n / 10 ^ 27"
  by (simp add: dec_value_def)

lemma ndigits_Suc_0: "ndigits (Suc 0) = 1"
  by (subst ndigits.simps) simp

lemma ndigits_29: "ndigits 10000000000000000000000000001 = 29"
  by (simp add: ndigits.simps)


lemma truediv_29_digits:
  assumes "prec ctx = 28" and "rounding ctx = ROUND_HALF_EVEN"
    and "Emin ctx = - 999999" and "Emax ctx = 999999"
  shows "truediv ctx (Decimal_int 10000000000000000000000000001) Decimal_1e27 =
         Inr (dec_from_triple False 1000000000000000000000000000 (- 26),
              raise_flag Rounded (raise_flag Inexact ctx))"
proof -
  have sz: "strip_zeros 100000000000000000000000000010 (- 28) (- 27) =
            (10000000000000000000000000001, - 27)"
    by (simp add: strip_zeros.simps)
  have "truediv ctx (Decimal_int 10000000000000000000000000001) Decimal_1e27 =
        dec_fix ctx (dec_from_triple False 10000000000000000000000000001 (- 27))"
    using assms(1)
    by (simp add: truediv_def Decimal_int_def Decimal_1e27_def ndigits_29 ndigits_Suc_0 sz)
  also have "\<dots> = fix_round ctx (dec_from_triple False 10000000000000000000000000001 (- 27)) False (- 26)"
    using assms by (simp add: dec_fix_def ndigits_29 Etop_def Etiny_def)
  also have "\<dots> = Inr (dec_from_triple False 1000000000000000000000000000 (- 26),
              raise_flag Rounded (raise_flag Inexact ctx))"
  proof -
    have c: "cut 10000000000000000000000000001 28 = 1"
      and k: "kept 10000000000000000000000000001 28 = 1000000000000000000000000000"
      and h: "half 10000000000000000000000000001 28 = 5"
      by (simp_all add: cut_def kept_def half_def ndigits_29)
    have r: "rounding_method (rounding ctx) False 10000000000000000000000000001 28 = - 1"
      by (simp add: assms(2) round_half_even_def round_half_up_def c k h)
    show ?thesis
      using assms(1,4) by (simp add: fix_round_def ndigits_29 r k Etop_def)
  qed
  finally show ?thesis .
qed


lemma hex_to_decimal_exact:
  assumes "int16 h = Some n" and "\<bar>n\<bar> < 10 ^ 28"
    and "prec ctx = 28" and "Emin ctx = - 999999" and "Emax ctx = 999999"
  shows "hex_to_decimal ctx h = Inr (Dec (dec_from_triple (n < 0) (nat \<bar>n\<bar>) (- 27)), ctx)"
proof -
  from assms(2) have "nat \<bar>n\<bar> < 10 ^ 28" by (simp add: nat_less_iff)
  from truediv_exact [OF assms(3-5) this, of "n < 0"] assms(1)
  show ?thesis by (simp add: hex_to_decimal_def Decimal_int_def)
qed

lemma int16_29_digits:
  "int16 ''204fce5e3e25026110000001'' = Some 10000000000000000000000000001"
  by (simp add: int16_eval)

lemma int16_4d2: "int16 ''4d2'' = Some 1234"
  by (simp add: int16_eval)

lemma DefaultContext_fields:
  "prec (DefaultContext\<lparr>flags := F\<rparr>) = 28"
  "rounding (DefaultContext\<lparr>flags := F\<rparr>) = ROUND_HALF_EVEN"
  "Emin (DefaultContext\<lparr>flags := F\<rparr>) = - 999999"
  "Emax (DefaultContext\<lparr>flags := F\<rparr>) = 999999"
  "prec DefaultContext = 28"
  "rounding DefaultContext = ROUND_HALF_EVEN"
  "Emin DefaultContext = - 999999"
  "Emax DefaultContext = 999999"
  by (simp_all add: DefaultContext_def)

section \<open>The accumulators\<close>

text \<open>
  Claim C1 says the quotient is exact for integers of any size. The division rounds
  to the precision of the context, 28 significant digits by default: the accumulator
  \<open>0x204fce5e3e25026110000001\<close> is the integer \<open>10^28 + 1\<close> of 29 digits, and the
  field is the decimal 10, not \<open>(10^28 + 1) / 10^27\<close>.
\<close>

theorem C1_counterexample:
  "int16 ''204fce5e3e25026110000001'' = Some 10000000000000000000000000001
   \<and> hex_to_decimal DefaultContext ''204fce5e3e25026110000001'' =
       Inr (Dec (dec_from_triple False 1000000000000000000000000000 (- 26)),
            DefaultContext\<lparr>flags := {Inexact, Rounded}\<rparr>)
   \<and> dec_value (dec_from_triple False 1000000000000000000000000000 (- 26)) = 10
   \<and> (10 :: rat) \<noteq> of_int 10000000000000000000000000001 / 10 ^ 27"
proof -
  have "hex_to_decimal DefaultContext ''204fce5e3e25026110000001'' =
       Inr (Dec (dec_from_triple False 1000000000000000000000000000 (- 26)),
            DefaultContext\<lparr>flags := {Inexact, Rounded}\<rparr>)"
    using truediv_29_digits [of DefaultContext]
    by (simp add: hex_to_decimal_def int16_29_digits DefaultContext_fields raise_flag_def
        DefaultContext_def insert_commute)
  moreover have "dec_value (dec_from_triple False 1000000000000000000000000000 (- 26)) = 10"
    by (simp add: dec_value_def)
  ultimately show ?thesis by (simp add: int16_29_digits)
qed

text \<open>
  Claim C1 as amended. Under the default precision and exponent limits (28 digits,
  exponents from -999999 to 999999), for every valid hexadecimal string \<open>h\<close> whose integer
  is below \<open>10^28\<close> in absolute value, the accumulator field is exactly
  \<open>int(h, 16) / 10^27\<close>, and the context is left as it was. This holds for both
  accumulators of \<open>DataAccumulatorsSyncEvent\<close> and for the model built from them.
\<close>

theorem C1_accumulator_exact_within_precision:
  assumes "prec ctx = 28" and "Emin ctx = - 999999" and "Emax ctx = 999999"
    and "raw ''token'' = Some t"
    and "raw ''lending_accumulator'' = Some h1" and "int16 h1 = Some n1" and "\<bar>n1\<bar> < 10 ^ 28"
    and "raw ''debt_accumulator'' = Some h2" and "int16 h2 = Some n2" and "\<bar>n2\<bar> < 10 ^ 28"
  shows "\<exists>d1 d2. hex_to_decimal ctx h1 = Inr (Dec d1, ctx)
           \<and> hex_to_decimal ctx h2 = Inr (Dec d2, ctx)
           \<and> DataAccumulatorsSyncEvent raw ctx =
               Model [(''token'', Str t), (''lending_accumulator'', Dec d1),
                      (''debt_accumulator'', Dec d2)] ctx
           \<and> dec_value d1 = of_int n1 / 10 ^ 27
           \<and> dec_value d2 = of_int n2 / 10 ^ 27"
proof -
  note e1 = hex_to_decimal_exact [OF assms(6,7,1,2,3)]
  note e2 = hex_to_decimal_exact [OF assms(9,10,1,2,3)]
  have "DataAccumulatorsSyncEvent raw ctx =
        Model [(''token'', Str t),
               (''lending_accumulator'', Dec (dec_from_triple (n1 < 0) (nat \<bar>n1\<bar>) (- 27))),
               (''debt_accumulator'', Dec (dec_from_triple (n2 < 0) (nat \<bar>n2\<bar>) (- 27)))] ctx"
    using assms(4,5,8)
    by (simp add: DataAccumulatorsSyncEvent_def no_context_def str_field_def e1 e2)
  with e1 e2 show ?thesis by (simp add: dec_value_scaled)
qed

text \<open>The witness: \<open>"4d2"\<close>, the integer 1234, gives \<open>1234 / 10^27\<close>.\<close>

theorem C1_accumulator_exact_witness:
  "int16 ''4d2'' = Some 1234 \<and>
   (\<exists>d1 d2. hex_to_decimal DefaultContext ''4d2'' = Inr (Dec d1, DefaultContext)
      \<and> DataAccumulatorsSyncEvent
           (map_of [(''token'', ''0x1''), (''lending_accumulator'', ''4d2''),
                    (''debt_accumulator'', ''4d2'')]) DefaultContext =
          Model [(''token'', Str ''0x1''), (''lending_accumulator'', Dec d1),
                 (''debt_accumulator'', Dec d2)] DefaultContext
      \<and> dec_value d1 = 1234 / 10 ^ 27 \<and> dec_value d2 = 1234 / 10 ^ 27)"
proof -
  have b: "\<bar>1234 :: int\<bar> < 10 ^ 28" by simp
  from C1_accumulator_exact_within_precision [of DefaultContext
      "map_of [(''token'', ''0x1''), (''lending_accumulator'', ''4d2''),
               (''debt_accumulator'', ''4d2'')]"
      "''0x1''" "''4d2''" 1234 "''4d2''" 1234,
      OF DefaultContext_fields(5,7,8) _ _ int16_4d2 b _ int16_4d2 b]
  show ?thesis by (simp add: int16_4d2) blast
qed

section \<open>What a construction depends on\<close>



lemma validate_fields_final_context:
  "final_context (validate_fields (map (\<lambda>(name, validate). (name, no_context validate)) vs) raw ctx errs vals)
     = (case result (validate_fields (map (\<lambda>(name, validate). (name, no_context validate)) vs) raw ctx errs vals) of
          Inl s \<Rightarrow> None | Inr r \<Rightarrow> Some ctx)"
proof (induction vs arbitrary: errs vals)
  case Nil
  then show ?case by simp
next
  case (Cons nv vs)
  obtain name validate where nv: "nv = (name, validate)" by (cases nv)
  show ?case
    unfolding nv using Cons.IH
    by (simp add: no_context_def split: option.splits sum.splits exn.splits)
qed







end
